theory Spec2Isabelle
  imports
    Complex_Main
    "HOL-Library.Multiset"
    "HOL-Library.Char_ord"
    "HOL-Library.List_Lexorder"
    "HOL-Library.Product_Lexorder"
begin

section \<open>Strings and numbers as Python prints them\<close>

text \<open>
  Python's \<open>str(n)\<close> on an integer: decimal digits, a leading minus sign for negatives.
  Python strings are compared by code point; \<open>string\<close> is compared the same way here
  (\<open>Char_ord\<close>, \<open>List_Lexorder\<close>).
\<close>

definition digit_char :: "nat \<Rightarrow> char" where
  "digit_char d = char_of (48 + d)"

function str_nat :: "nat \<Rightarrow> string" where
  "str_nat n = (if n < 10 then [digit_char n] else str_nat (n div 10) @ [digit_char (n mod 10)])"
  by pat_completeness auto
termination
  by (relation "measure (\<lambda>n. n)") auto

declare str_nat.simps [simp del]

definition str_int :: "int \<Rightarrow> string" where
  "str_int i = (if i < 0 then CHR ''-'' # str_nat (nat (- i)) else str_nat (nat i))"

text \<open>\<open>x or d\<close> on an optional string: \<open>None\<close> and the empty string are both falsy.\<close>

definition or_str :: "string option \<Rightarrow> string \<Rightarrow> string" where
  "or_str x d = (case x of None \<Rightarrow> d | Some v \<Rightarrow> if v = [] then d else v)"

text \<open>Truthiness of an optional string (\<open>if password:\<close>).\<close>

definition truthy :: "string option \<Rightarrow> bool" where
  "truthy x = (case x of None \<Rightarrow> False | Some v \<Rightarrow> v \<noteq> [])"

section \<open>models.py\<close>

text \<open>An album id is \<open>Union[int, str]\<close>.\<close>

datatype album_id = IdInt int | IdStr string

fun str_id :: "album_id \<Rightarrow> string" where
  "str_id (IdInt i) = str_int i"
| "str_id (IdStr s) = s"

datatype OutputFormat = zip | pdf

fun OutputFormat_value :: "OutputFormat \<Rightarrow> string" where
  "OutputFormat_value zip = ''zip''"
| "OutputFormat_value pdf = ''pdf''"

record TaskRequest =
  album_ids :: "album_id list"
  output_format :: OutputFormat
  quality :: "int option"
  encrypt :: bool
  password :: "string option"
  compression :: "int option"
  cache :: bool
  proxy :: "string option"
  option_file :: "string option"

datatype TaskStatusEnum = queued | running | completed | failed | canceled

text \<open>
  The request as it arrives, before the model class fills the defaults in: every field is
  either omitted or given. \<open>album_ids\<close> may arrive as null, as one scalar or as a list.
\<close>

datatype 'a field = Omitted | Given 'a

datatype raw_ids = RawNull | RawScalar album_id | RawList "album_id list"

record raw_request =
  r_album_ids :: "raw_ids field"
  r_output_format :: "OutputFormat field"
  r_quality :: "int option field"
  r_encrypt :: "bool field"
  r_password :: "string option field"
  r_compression :: "int option field"
  r_cache :: "bool field"
  r_proxy :: "string option field"
  r_option_file :: "string option field"

text \<open>\<open>TaskRequest._coerce_ids\<close>: a scalar becomes a one-element list, \<open>list(v or [])\<close> otherwise.\<close>

fun coerce_ids :: "raw_ids \<Rightarrow> album_id list" where
  "coerce_ids (RawScalar v) = [v]"
| "coerce_ids RawNull = []"
| "coerce_ids (RawList xs) = xs"

definition with_default :: "'a \<Rightarrow> 'a field \<Rightarrow> 'a" where
  "with_default d f = (case f of Omitted \<Rightarrow> d | Given v \<Rightarrow> v)"

datatype validation_error = MissingField string | OutOfRange string

text \<open>
  Construction of a \<open>TaskRequest\<close>: \<open>album_ids\<close> is required (\<open>Field(...)\<close>) and passes through
  \<open>_coerce_ids\<close>; \<open>quality\<close> is bounded by \<open>ge=1, le=100\<close> and \<open>compression\<close> by \<open>ge=0, le=9\<close>;
  every other field takes its declared default when omitted.
\<close>

definition in_bounds :: "int \<Rightarrow> int \<Rightarrow> int option \<Rightarrow> bool" where
  "in_bounds lo hi v = (case v of None \<Rightarrow> True | Some n \<Rightarrow> lo \<le> n \<and> n \<le> hi)"

definition TaskRequest_init :: "raw_request \<Rightarrow> validation_error + TaskRequest" where
  "TaskRequest_init r =
     (case r_album_ids r of
        Omitted \<Rightarrow> Inl (MissingField ''album_ids'')
      | Given v \<Rightarrow>
          if \<not> in_bounds 1 100 (with_default None (r_quality r)) then Inl (OutOfRange ''quality'')
          else if \<not> in_bounds 0 9 (with_default (Some 6) (r_compression r))
            then Inl (OutOfRange ''compression'')
          else Inr \<lparr> album_ids = coerce_ids v,
                     output_format = with_default zip (r_output_format r),
                     quality = with_default None (r_quality r),
                     encrypt = with_default False (r_encrypt r),
                     password = with_default None (r_password r),
                     compression = with_default (Some 6) (r_compression r),
                     cache = with_default True (r_cache r),
                     proxy = with_default None (r_proxy r),
                     option_file = with_default None (r_option_file r) \<rparr>)"

section \<open>storage.py: the cache key\<close>

datatype json = JNull | JBool bool | JInt int | JStr string | JList "json list"
  | JObj "(string \<times> json) list"

text \<open>
  The library functions the program calls and its configuration. \<open>sha256_hex s\<close> stands for
  \<open>hashlib.sha256(s.encode("utf-8")).hexdigest()\<close> and \<open>json_dumps\<close> for \<open>json.dumps\<close>; both are
  parameters, so every theorem holds whatever they compute. \<open>resolve_path\<close> stands for
  \<open>Path(p).resolve()\<close>, which depends on the file system.
\<close>

record lib =
  sha256_hex :: "string \<Rightarrow> string"
  json_dumps :: "json \<Rightarrow> string"
  cache_dir_path :: string
  work_dir_path :: string
  default_proxy :: "string option"
  resolve_path :: "string \<Rightarrow> string"

definition json_opt_int :: "int option \<Rightarrow> json" where
  "json_opt_int v = (case v of None \<Rightarrow> JNull | Some n \<Rightarrow> JInt n)"

text \<open>The dict \<open>cache_payload\<close> built at the head of \<open>TaskManager.submit\<close>, in insertion order.\<close>

definition cache_payload :: "TaskRequest \<Rightarrow> (string \<times> json) list" where
  "cache_payload req =
     [(''album_ids'', JList (map JStr (sort (map str_id (album_ids req))))),
      (''output_format'', JStr (OutputFormat_value (output_format req))),
      (''quality'', json_opt_int (quality req)),
      (''encrypt'', JBool (encrypt req)),
      (''password'', JStr (or_str (password req) [])),
      (''compression'', json_opt_int (compression req)),
      (''proxy'', JStr (or_str (proxy req) [])),
      (''option_file'', JStr (or_str (option_file req) []))]"

text \<open>\<open>dict.pop(k, None)\<close> and \<open>d[k] = v\<close> on a dict kept as an association list.\<close>

definition dict_pop :: "string \<Rightarrow> (string \<times> json) list \<Rightarrow> json option \<times> (string \<times> json) list" where
  "dict_pop k d = (map_of d k, filter (\<lambda>kv. fst kv \<noteq> k) d)"

definition dict_set :: "string \<Rightarrow> json \<Rightarrow> (string \<times> json) list \<Rightarrow> (string \<times> json) list" where
  "dict_set k v d = (if k \<in> fst ` set d then map (\<lambda>kv. if fst kv = k then (k, v) else kv) d
                     else d @ [(k, v)])"

text \<open>
  \<open>Storage.cache_key\<close>: the password is popped and replaced by its digest when it is a
  string, the dict is serialised with \<open>sort_keys=True\<close> and digested.
\<close>

definition cache_key :: "lib \<Rightarrow> (string \<times> json) list \<Rightarrow> string" where
  "cache_key L payload =
     (let (pwd, safe) = dict_pop ''password'' payload;
          safe' = (case pwd of
                     Some (JStr p) \<Rightarrow> dict_set ''password_hash'' (JStr (sha256_hex L p)) safe
                   | _ \<Rightarrow> safe);
          blob = json_dumps L (JObj (sort_key fst safe'))
      in sha256_hex L blob)"

definition computeKey :: "lib \<Rightarrow> TaskRequest \<Rightarrow> string" where
  "computeKey L req = cache_key L (cache_payload req)"

text \<open>
  Two raw requests differ only in the order of their resource ids or in omitted-versus-default
  fields: the id lists are permutations of each other, and every other field is either the
  same on both sides or omitted on one side and given its declared default on the other.
\<close>

definition same_or_default :: "'a \<Rightarrow> 'a field \<Rightarrow> 'a field \<Rightarrow> bool" where
  "same_or_default d x y = (x = y \<or> (x = Omitted \<and> y = Given d) \<or> (x = Given d \<and> y = Omitted))"

definition same_ids_up_to_order :: "raw_ids field \<Rightarrow> raw_ids field \<Rightarrow> bool" where
  "same_ids_up_to_order x y =
     (case (x, y) of
        (Given (RawList xs), Given (RawList ys)) \<Rightarrow> mset xs = mset ys
      | _ \<Rightarrow> x = y)"

definition differ_only_in_order_or_defaults :: "raw_request \<Rightarrow> raw_request \<Rightarrow> bool" where
  "differ_only_in_order_or_defaults r r' =
     (same_ids_up_to_order (r_album_ids r) (r_album_ids r')
      \<and> same_or_default zip (r_output_format r) (r_output_format r')
      \<and> same_or_default None (r_quality r) (r_quality r')
      \<and> same_or_default False (r_encrypt r) (r_encrypt r')
      \<and> same_or_default None (r_password r) (r_password r')
      \<and> same_or_default (Some 6) (r_compression r) (r_compression r')
      \<and> same_or_default True (r_cache r) (r_cache r')
      \<and> same_or_default None (r_proxy r) (r_proxy r')
      \<and> same_or_default None (r_option_file r) (r_option_file r'))"

section \<open>storage.py: task states and the artifact cache\<close>

text \<open>
  The metadata a fetch reports for an album (\<open>before_album\<close>); only the keys the program
  reads are kept. A task's \<open>metadata\<close> is the list under the key \<open>albums\<close>, and the initial
  empty dict is the empty list.
\<close>

record album_meta =
  m_album_id :: "string option"
  m_title :: "string option"

text \<open>
  A task state is a Python dict; a key that may be absent is an option, with \<open>None\<close> for
  an absent key. One dict object is shared by the storage and by every reader of a task id,
  so an update through any reference is an update of the stored state.
\<close>

record state_dict =
  task_id :: string
  status :: TaskStatusEnum
  progress :: real
  created_at :: real
  updated_at :: real
  metadata :: "album_meta list"
  artifact_path :: "string option"
  download_url :: "string option"
  message :: "string option"
  error :: "string option"
  request :: "TaskRequest option"
  st_cache_key :: "string option"

text \<open>\<open>CacheEntry\<close>; \<open>created_at\<close> and \<open>size\<close> come from \<open>stat\<close> and are read nowhere.\<close>

record CacheEntry =
  entry_key :: string
  entry_path :: string

text \<open>
  The state of the process: \<open>Storage._tasks\<close>, \<open>TaskManager._dedup\<close>, the names of the files in
  the cache directory in the order \<open>glob\<close> lists them (a missing directory lists nothing),
  and the coroutines handed to \<open>asyncio.create_task\<close>, oldest first.
\<close>

record manager =
  tasks :: "string \<rightharpoonup> state_dict"
  dedup :: "string \<rightharpoonup> string"
  cache_dir :: "string list"
  scheduled :: "(string \<times> TaskRequest) list"

definition get_task_state :: "string \<Rightarrow> manager \<Rightarrow> state_dict option" where
  "get_task_state tid s = tasks s tid"

text \<open>\<open>Storage.set_task_state\<close>; the best-effort write of the state file is not modelled.\<close>

definition set_task_state :: "string \<Rightarrow> state_dict \<Rightarrow> manager \<Rightarrow> manager" where
  "set_task_state tid st s = s\<lparr>tasks := (tasks s)(tid \<mapsto> st)\<rparr>"

definition startswith :: "string \<Rightarrow> string \<Rightarrow> bool" where
  "startswith pre s = (take (length pre) s = pre)"

text \<open>
  \<open>Storage.cached_artifact\<close>: the first file of the cache directory matching \<open>key.*\<close> (the key
  is a hexadecimal digest, so the pattern has no other wildcard). A file that disappears
  between \<open>glob\<close> and \<open>stat\<close> is not modelled.
\<close>

definition cached_artifact :: "lib \<Rightarrow> string \<Rightarrow> manager \<Rightarrow> CacheEntry option" where
  "cached_artifact L k s =
     (case filter (startswith (k @ ''.'')) (cache_dir s) of
        [] \<Rightarrow> None
      | p # _ \<Rightarrow> Some \<lparr> entry_key = k, entry_path = cache_dir_path L @ ''/'' @ p \<rparr>)"

text \<open>\<open>Storage.put_artifact\<close>: copy the source to \<open>cache_dir/key.suffix\<close> unless it is that file.\<close>

definition put_artifact :: "lib \<Rightarrow> string \<Rightarrow> string \<Rightarrow> string \<Rightarrow> manager \<Rightarrow> string \<times> manager" where
  "put_artifact L k src_path suffix s =
     (let name = k @ ''.'' @ dropWhile (\<lambda>c. c = CHR ''.'') suffix;
          dst = cache_dir_path L @ ''/'' @ name
      in if src_path = dst then (dst, s)
         else (dst, s\<lparr>cache_dir := (if name \<in> set (cache_dir s) then cache_dir s
                                      else cache_dir s @ [name])\<rparr>))"

section \<open>downloader.py\<close>

record DownloadParams =
  dp_album_ids :: "album_id list"
  dp_output_format :: string
  dp_quality :: "int option"
  dp_encrypt :: bool
  dp_password :: "string option"
  dp_compression :: int
  dp_proxy :: "string option"
  dp_option_file :: "string option"

record DownloadResult =
  res_album_ids :: "string list"
  res_artifact_path :: string
  res_suffix :: string
  res_metadata :: "album_meta list"

text \<open>What a packaging run writes to its output file.\<close>

datatype zip_method = ZIP_LZMA | ZIP_DEFLATED

datatype artifact =
    ZipArchive (zip_entries: "string list") (zip_password: "string option") zip_method
  | PdfDocument (pdf_pages: "string list") (pdf_password: "string option")

text \<open>The password that opens an artifact, \<open>None\<close> when it is not encrypted.\<close>

fun opens_with :: "artifact \<Rightarrow> string option" where
  "opens_with (ZipArchive _ pw _) = pw"
| "opens_with (PdfDocument _ pw) = pw"

text \<open>
  The events \<open>CustomJmDownloader\<close> passes on while the library downloads one album:
  \<open>before_album\<close> gives the album's metadata, \<open>before_image\<close> and \<open>after_image\<close> give an image.
\<close>

datatype stage = before | after

fun stage_str :: "stage \<Rightarrow> string" where
  "stage_str before = ''before''"
| "stage_str after = ''after''"

record image_info =
  i_album_id :: "string option"
  i_image_id :: "string option"
  i_page :: "int option"
  i_path :: string
  i_filename :: "string option"

datatype event = AlbumMeta album_meta | ImageEvent stage image_info

text \<open>
  One call of \<open>jd.download_album(aid)\<close>: the events it emits, whether it raised, and, when it
  raised, the error of the library-level fallback \<open>download_album(aid, op)\<close> if that raised too.
\<close>

record fetch_outcome =
  events :: "event list"
  raised :: bool
  fallback_error :: "string option"

text \<open>
  The world outside one task body: the fetch collaborator, the files \<open>os.walk\<close> finds under
  the shared download directory, which paths exist, whether \<open>img2pdf.convert\<close> raises on a
  list of images, and the time stamp \<open>time.strftime\<close> returns. \<open>_build_option\<close> only
  prepares the option object the fetch library works from; what it changes is part of \<open>fetch\<close>.
\<close>

record ext =
  fetch :: "string \<Rightarrow> fetch_outcome"
  walk :: "string list"
  path_exists :: "string \<Rightarrow> bool"
  img2pdf_error :: "string list \<Rightarrow> string option"
  ts_name :: string

record image_item =
  it_path :: string
  it_page :: "int option"
  it_filename :: "string option"

text \<open>
  The locals the callbacks of \<open>download_and_package\<close> close over, and the calls of
  \<open>progress_cb\<close> made so far, oldest first. \<open>images_by_album\<close> is only read with
  \<open>get(aid, [])\<close> and \<open>setdefault(aid, [])\<close>, so a missing key is the empty list.
\<close>

record dl_acc =
  calls :: "(real \<times> string) list"
  images_by_album :: "string \<Rightarrow> image_item list"
  all_meta :: "album_meta list"

definition str_opt :: "string option \<Rightarrow> string" where
  "str_opt x = (case x of None \<Rightarrow> ''None'' | Some v \<Rightarrow> v)"

definition on_album_meta :: "album_meta \<Rightarrow> dl_acc \<Rightarrow> dl_acc" where
  "on_album_meta m a =
     a\<lparr> all_meta := all_meta a @ [m],
        calls := calls a @ [(1 / 10, ''meta '' @ str_opt (m_album_id m))] \<rparr>"

definition on_image_event :: "stage \<Rightarrow> image_info \<Rightarrow> dl_acc \<Rightarrow> dl_acc" where
  "on_image_event stg info a =
     (let aid = or_str (i_album_id info) []
      in if aid = [] then a
         else
           let a1 = (if stg = after
                     then a\<lparr>images_by_album := (images_by_album a)
                            (aid := images_by_album a aid @
                               [\<lparr> it_path = i_path info, it_page = i_page info,
                                  it_filename = i_filename info \<rparr>])\<rparr>
                     else a)
           in case i_image_id info of
                None \<Rightarrow> a1
              | Some i \<Rightarrow> a1\<lparr>calls := calls a1 @ [(2 / 10, ''image '' @ stage_str stg @ '' '' @ i)]\<rparr>)"

fun on_event :: "event \<Rightarrow> dl_acc \<Rightarrow> dl_acc" where
  "on_event (AlbumMeta m) a = on_album_meta m a"
| "on_event (ImageEvent stg info) a = on_image_event stg info a"

text \<open>
  The loop over the album ids: report \<open>0.05 + 0.4 * idx / max(1, n)\<close>, then fetch under the
  album's lock. The floats are taken as reals. An error of the fallback leaves the loop.
\<close>

fun download_albums :: "ext \<Rightarrow> nat \<Rightarrow> nat \<Rightarrow> string list \<Rightarrow> dl_acc \<Rightarrow> string option \<times> dl_acc" where
  "download_albums X n idx [] a = (None, a)"
| "download_albums X n idx (aid # rest) a =
     (let a1 = a\<lparr>calls := calls a @
                 [(5 / 100 + 4 / 10 * real idx / real (max 1 n), ''download '' @ aid)]\<rparr>;
          out = fetch X aid;
          a2 = fold on_event (events out) a1
      in if raised out \<and> fallback_error out \<noteq> None then (fallback_error out, a2)
         else download_albums X n (Suc idx) rest a2)"

text \<open>The sort key \<open>(page is None, page or 0, str(filename or path))\<close>.\<close>

definition item_key :: "image_item \<Rightarrow> bool \<times> int \<times> string" where
  "item_key x = (it_page x = None, (case it_page x of None \<Rightarrow> 0 | Some p \<Rightarrow> p),
                 or_str (it_filename x) (it_path x))"

text \<open>
  The ordered image list: each requested album's items are sorted in place and their paths
  appended (a \<open>Path\<close> is always truthy, so no item is dropped).
\<close>

fun select_images ::
  "string list \<Rightarrow> (string \<Rightarrow> image_item list) \<Rightarrow> string list
     \<Rightarrow> (string \<Rightarrow> image_item list) \<times> string list" where
  "select_images [] iba sel = (iba, sel)"
| "select_images (aid # rest) iba sel =
     (let items = sort_key item_key (iba aid)
      in select_images rest (iba(aid := items)) (sel @ map it_path items))"

definition path_name :: "string \<Rightarrow> string" where
  "path_name p = rev (takeWhile (\<lambda>c. c \<noteq> CHR ''/'') (rev p))"

text \<open>\<open>Path.suffix\<close>: from the last dot of the name, unless the dot is first or last.\<close>

definition path_suffix :: "string \<Rightarrow> string" where
  "path_suffix p =
     (let nm = path_name p; e = rev (takeWhile (\<lambda>c. c \<noteq> CHR ''.'') (rev nm))
      in if CHR ''.'' \<in> set nm \<and> e \<noteq> [] \<and> Suc (length e) < length nm then CHR ''.'' # e else [])"

definition lower_char :: "char \<Rightarrow> char" where
  "lower_char c = (if CHR ''A'' \<le> c \<and> c \<le> CHR ''Z'' then char_of (of_char c + (32::nat)) else c)"

text \<open>The components of a path, as \<open>Path\<close> objects are compared.\<close>

fun path_parts :: "string \<Rightarrow> string list" where
  "path_parts [] = [[]]"
| "path_parts (c # cs) =
     (if c = CHR ''/'' then [] # path_parts cs
      else case path_parts cs of
             [] \<Rightarrow> [[c]]
           | part # parts \<Rightarrow> (c # part) # parts)"

text \<open>
  \<open>_collect_images\<close> on the files the walk lists; \<open>images.sort()\<close> orders \<open>Path\<close> objects,
  component by component.
\<close>

definition collect_images :: "string list \<Rightarrow> string list" where
  "collect_images files =
     sort_key path_parts (filter (\<lambda>p. map lower_char (path_suffix p) \<in> {''.jpg'', ''.jpeg'', ''.png'', ''.webp''})
             files)"

definition pad5 :: "nat \<Rightarrow> string" where
  "pad5 n = replicate (5 - length (str_nat n)) CHR ''0'' @ str_nat n"

text \<open>
  \<open>_reencode_images\<close>: one numbered JPEG per image in the staging directory; a failed
  re-encoding copies the original under the same name.
\<close>

definition reencode_images :: "string list \<Rightarrow> int \<Rightarrow> string \<Rightarrow> string list" where
  "reencode_images images q staging =
     map (\<lambda>idx. staging @ ''/'' @ pad5 idx @ ''.jpg'') [1..<Suc (length images)]"

text \<open>\<open>_make_zip\<close> on the files of the tree it walks, given by their archive names.\<close>

definition make_zip :: "string list \<Rightarrow> string option \<Rightarrow> int \<Rightarrow> artifact" where
  "make_zip files pw level =
     ZipArchive files (if truthy pw then pw else None)
       (if level \<ge> 7 then ZIP_LZMA else ZIP_DEFLATED)"

text \<open>\<open>_make_pdf\<close>: the document is encrypted only when the password is truthy.\<close>

definition make_pdf :: "ext \<Rightarrow> string list \<Rightarrow> string option \<Rightarrow> string + artifact" where
  "make_pdf X images pw =
     (case img2pdf_error X images of
        Some e \<Rightarrow> Inl e
      | None \<Rightarrow> Inr (PdfDocument images (if truthy pw then pw else None)))"

text \<open>
  The packing stage of the archive branch: for each album id, a link to each existing image
  the callbacks recorded, named by a running index.
\<close>

fun stage_album :: "(string \<Rightarrow> bool) \<Rightarrow> string \<Rightarrow> image_item list \<Rightarrow> nat \<Rightarrow> string list \<times> nat" where
  "stage_album ex aid [] index = ([], index)"
| "stage_album ex aid (it # its) index =
     (if \<not> ex (it_path it) then stage_album ex aid its index
      else
        let dst = ''album_'' @ aid @ ''/'' @ pad5 index @ ''_''
                    @ path_name (or_str (it_filename it) (path_name (it_path it)));
            (r, i') = stage_album ex aid its (Suc index)
        in (dst # r, i'))"

fun stage_files ::
  "(string \<Rightarrow> bool) \<Rightarrow> string list \<Rightarrow> (string \<Rightarrow> image_item list) \<Rightarrow> nat \<Rightarrow> string list" where
  "stage_files ex [] iba index = []"
| "stage_files ex (aid # rest) iba index =
     (let (r, i') = stage_album ex aid (iba aid) index in r @ stage_files ex rest iba i')"

fun join :: "string \<Rightarrow> string list \<Rightarrow> string" where
  "join sep [] = []"
| "join sep [x] = x"
| "join sep (x # y # ys) = x @ sep @ join sep (y # ys)"

text \<open>
  \<open>Downloader.download_and_package\<close> with the callback given: the calls of \<open>progress_cb\<close> in
  order, and either the error raised or the result with the artifact written.
\<close>

definition download_and_package ::
  "ext \<Rightarrow> string \<Rightarrow> DownloadParams \<Rightarrow> (real \<times> string) list \<times> (string + DownloadResult \<times> artifact)" where
  "download_and_package X task_work params =
     (let ids = map str_id (dp_album_ids params);
          (err, a) = download_albums X (length ids) 1 ids
                       \<lparr> calls = [], images_by_album = (\<lambda>_. []), all_meta = [] \<rparr>
      in case err of
           Some e \<Rightarrow> (calls a, Inl e)
         | None \<Rightarrow>
            (let c1 = calls a @ [(1 / 2, ''collect images'')];
                 (iba, sel) = select_images ids (images_by_album a) [];
                 selected = (if sel = [] then collect_images (walk X) else sel);
                 staging = task_work @ ''/_reencoded'';
                 c2 = (case dp_quality params of
                         None \<Rightarrow> c1
                       | Some q \<Rightarrow> c1 @ [(55 / 100, ''re-encode quality='' @ str_int q)]);
                 images = (case dp_quality params of
                             None \<Rightarrow> selected
                           | Some q \<Rightarrow> reencode_images selected q staging);
                 base_name = ''JM_'' @ join ''_'' ids @ ''_'' @ ts_name X;
                 pw = (if dp_encrypt params then dp_password params else None)
             in if dp_output_format params = ''zip'' then
                  (let out = task_work @ ''/'' @ base_name @ ''.zip'';
                       c3 = c2 @ [(75 / 100, ''zip'')];
                       arch = (case dp_quality params of
                                 Some q \<Rightarrow> make_zip (map path_name images) pw (dp_compression params)
                               | None \<Rightarrow> make_zip (stage_files (path_exists X) ids iba 1) pw
                                           (dp_compression params))
                   in (c3 @ [(95 / 100, ''finalize'')],
                       Inr (\<lparr> res_album_ids = ids, res_artifact_path = out,
                               res_suffix = ''zip'', res_metadata = all_meta a \<rparr>, arch)))
                else
                  (let out = task_work @ ''/'' @ base_name @ ''.pdf'';
                       c3 = c2 @ [(75 / 100, ''pdf'')]
                   in case make_pdf X images pw of
                        Inl e \<Rightarrow> (c3, Inl e)
                      | Inr doc \<Rightarrow>
                          (c3 @ [(95 / 100, ''finalize'')],
                           Inr (\<lparr> res_album_ids = ids, res_artifact_path = out,
                                   res_suffix = ''pdf'', res_metadata = all_meta a \<rparr>, doc)))))"

section \<open>tasks.py\<close>

record SubmitResponse =
  resp_task_id :: string
  resp_status :: TaskStatusEnum
  duplicate :: bool

text \<open>
  \<open>TaskManager._task_state\<close>: the stored state, or a fresh queued one that is stored first.
  The clock is an argument: the reads of \<open>time.time()\<close> within one call are taken equal.
\<close>

definition task_state :: "real \<Rightarrow> string \<Rightarrow> manager \<Rightarrow> state_dict \<times> manager" where
  "task_state now tid s =
     (case get_task_state tid s of
        Some st \<Rightarrow> (st, s)
      | None \<Rightarrow>
          (let st = \<lparr> task_id = tid, status = queued, progress = 0, created_at = now,
                      updated_at = now, metadata = [], artifact_path = None,
                      download_url = None, message = None, error = None, request = None,
                      st_cache_key = None \<rparr>
           in (st, set_task_state tid st s)))"

text \<open>
  \<open>TaskManager.submit\<close>. \<open>uuid\<close> is the value \<open>uuid.uuid4().hex\<close> returns when it is called.
\<close>

definition submit ::
  "lib \<Rightarrow> string \<Rightarrow> real \<Rightarrow> TaskRequest \<Rightarrow> manager \<Rightarrow> SubmitResponse \<times> manager" where
  "submit L uuid now req s =
     (let k = cache_key L (cache_payload req);
          entry = (if cache req then cached_artifact L k s else None)
      in case entry of
           Some e \<Rightarrow>
             (let tid = or_str (dedup s k) uuid;
                  s1 = s\<lparr>dedup := (dedup s)(k \<mapsto> tid)\<rparr>;
                  (st, s2) = task_state now tid s1;
                  st' = st\<lparr> status := completed, progress := 1, updated_at := now,
                            artifact_path := Some (entry_path e) \<rparr>
              in (\<lparr> resp_task_id = tid, resp_status = completed, duplicate = True \<rparr>,
                  set_task_state tid st' s2))
         | None \<Rightarrow>
             (case dedup s k of
                Some tid \<Rightarrow>
                  (let (st, s1) = task_state now tid s
                   in (\<lparr> resp_task_id = tid, resp_status = status st, duplicate = True \<rparr>, s1))
              | None \<Rightarrow>
                  (let tid = uuid;
                       s1 = s\<lparr>dedup := (dedup s)(k \<mapsto> tid)\<rparr>;
                       (st, s2) = task_state now tid s1;
                       st' = st\<lparr> request := Some req, st_cache_key := Some k \<rparr>;
                       s3 = set_task_state tid st' s2
                   in (\<lparr> resp_task_id = tid, resp_status = queued, duplicate = False \<rparr>,
                       s3\<lparr>scheduled := scheduled s3 @ [(tid, req)]\<rparr>))))"

text \<open>The task body \<open>_run_task\<close>, in its steps. First the transition to \<open>running\<close>.\<close>

definition run_task_begin :: "real \<Rightarrow> string \<Rightarrow> manager \<Rightarrow> manager" where
  "run_task_begin now tid s =
     (let (st, s1) = task_state now tid s
      in set_task_state tid (st\<lparr> status := running, updated_at := now \<rparr>) s1)"

text \<open>The closure \<open>progress_cb\<close> of the task \<open>tid\<close>.\<close>

definition progress_cb :: "real \<Rightarrow> string \<Rightarrow> real \<Rightarrow> string \<Rightarrow> manager \<Rightarrow> manager" where
  "progress_cb now tid p msg s =
     (let (st, s1) = task_state now tid s
      in set_task_state tid
           (st\<lparr> progress := max 0 (min (99 / 100) p), message := Some msg, updated_at := now \<rparr>)
           s1)"

definition or_int :: "int option \<Rightarrow> int \<Rightarrow> int" where
  "or_int x d = (case x of None \<Rightarrow> d | Some v \<Rightarrow> if v = 0 then d else v)"

definition DownloadParams_of :: "lib \<Rightarrow> TaskRequest \<Rightarrow> DownloadParams" where
  "DownloadParams_of L req =
     \<lparr> dp_album_ids = map (\<lambda>a. IdStr (str_id a)) (album_ids req),
        dp_output_format = OutputFormat_value (output_format req),
        dp_quality = quality req,
        dp_encrypt = encrypt req,
        dp_password = password req,
        dp_compression = or_int (compression req) 6,
        dp_proxy = (case proxy req of None \<Rightarrow> default_proxy L | Some p \<Rightarrow> Some p),
        dp_option_file = (if truthy (option_file req)
                          then map_option (resolve_path L) (option_file req) else None) \<rparr>"

text \<open>
  The end of the task body, given what \<open>download_and_package\<close> returned or raised and the
  error of the copy into the cache, if it raised. \<open>state\<close> is the stored dict (the same
  object); a missing \<open>cache_key\<close> raises \<open>KeyError\<close>, which the handler records like any error.
\<close>

definition run_task_end ::
  "lib \<Rightarrow> real \<Rightarrow> string \<Rightarrow> (string + DownloadResult \<times> artifact) \<Rightarrow> string option
     \<Rightarrow> manager \<Rightarrow> manager" where
  "run_task_end L now tid outcome publish_error s =
     (let (st, s0) = task_state now tid s;
          fail = (\<lambda>e. set_task_state tid
                         (st\<lparr> status := failed, error := Some e, updated_at := now \<rparr>) s0)
      in case outcome of
           Inl e \<Rightarrow> fail e
         | Inr (result, art) \<Rightarrow>
             (case st_cache_key st of
                None \<Rightarrow> fail (CHR 0x27 # ''cache_key'' @ [CHR 0x27])
              | Some k \<Rightarrow>
                  (case publish_error of
                     Some e \<Rightarrow> fail e
                   | None \<Rightarrow>
                       (let (cached_path, s1) =
                              put_artifact L k (res_artifact_path result) (res_suffix result) s0
                        in set_task_state tid
                             (st\<lparr> status := completed, progress := 1, updated_at := now,
                                   artifact_path := Some cached_path,
                                   metadata := res_metadata result \<rparr>) s1))))"

text \<open>The whole body, run without interruption.\<close>

definition run_task ::
  "lib \<Rightarrow> ext \<Rightarrow> real \<Rightarrow> string \<Rightarrow> TaskRequest \<Rightarrow> string option \<Rightarrow> manager \<Rightarrow> manager" where
  "run_task L X now tid req publish_error s =
     (let s1 = run_task_begin now tid s;
          (cs, outcome) = download_and_package X (work_dir_path L @ ''/'' @ tid)
                            (DownloadParams_of L req);
          s2 = fold (\<lambda>c. progress_cb now tid (fst c) (snd c)) cs s1
      in run_task_end L now tid outcome publish_error s2)"

text \<open>
  \<open>TaskManager.get_status\<close>: the download URL is derived on first use; building the
  \<open>TaskStatus\<close> fails when the state has no \<open>request\<close>.
\<close>

definition get_status :: "string \<Rightarrow> manager \<Rightarrow> (validation_error + state_dict) option \<times> manager" where
  "get_status tid s =
     (case get_task_state tid s of
        None \<Rightarrow> (None, s)
      | Some st \<Rightarrow>
          (let st' = (case artifact_path st of
                        None \<Rightarrow> st
                      | Some a \<Rightarrow>
                          if a \<noteq> [] \<and> \<not> truthy (download_url st)
                          then st\<lparr>download_url :=
                                    Some (''/tasks/'' @ tid @ ''/download/'' @ path_name a)\<rparr>
                          else st);
               s' = (if st' = st then s else set_task_state tid st' s)
           in (Some (case request st' of
                       None \<Rightarrow> Inl (MissingField ''request'')
                     | Some _ \<Rightarrow> Inr st'), s')))"

text \<open>
  Everything that changes the state of the process: a submission, a step of a task body,
  a status query. A run of the process is a list of such operations, each taken as atomic:
  \<open>submit\<close>, \<open>get_status\<close> and the two ends of a task body run on the event loop, and
  \<open>progress_cb\<close>, called from a worker thread, reads and writes the task states under the
  storage lock.
\<close>

datatype op =
    Submit string real TaskRequest
  | RunBegin real string
  | ProgressCb real string real string
  | RunEnd real string "string + DownloadResult \<times> artifact" "string option"
  | GetStatus string

fun exec_op :: "lib \<Rightarrow> op \<Rightarrow> manager \<Rightarrow> manager" where
  "exec_op L (Submit uuid now req) s = snd (submit L uuid now req s)"
| "exec_op L (RunBegin now tid) s = run_task_begin now tid s"
| "exec_op L (ProgressCb now tid p msg) s = progress_cb now tid p msg s"
| "exec_op L (RunEnd now tid outcome publish_error) s = run_task_end L now tid outcome publish_error s"
| "exec_op L (GetStatus tid) s = snd (get_status tid s)"

definition exec :: "lib \<Rightarrow> op list \<Rightarrow> manager \<Rightarrow> manager" where
  "exec L ops s = fold (exec_op L) ops s"

definition init_manager :: manager where
  "init_manager = \<lparr> tasks = Map.empty, dedup = Map.empty, cache_dir = [], scheduled = [] \<rparr>"

section \<open>downloader.py: the per-album locks\<close>

text \<open>
  \<open>Downloader._get_album_lock\<close> and the \<open>with lock:\<close> around the fetch, run by several worker
  threads. A lock is a number; \<open>album_locks\<close> is the class-level dict, \<open>held\<close> the locks
  currently acquired, \<open>next_lock\<close> the next lock \<open>threading.Lock()\<close> creates. Each thread is at
  one of the statements below; a step runs one statement, which is atomic.
\<close>

datatype pc =
    AtOuterGet
  | AtGuard
  | AtInnerGet nat
  | AtCreate nat
  | AtStore nat nat
  | AtAcquire nat
  | Fetching nat
  | Released

record thread =
  t_album :: string
  t_pc :: pc

record lock_state =
  threads :: "thread list"
  album_locks :: "string \<rightharpoonup> nat"
  held :: "nat list"
  next_lock :: nat

definition set_pc :: "nat \<Rightarrow> pc \<Rightarrow> lock_state \<Rightarrow> lock_state" where
  "set_pc i p s = s\<lparr>threads := (threads s)[i := (threads s ! i)\<lparr>t_pc := p\<rparr>]\<rparr>"

text \<open>
  One step of thread \<open>i\<close>, \<open>None\<close> when it cannot move (no such thread, blocked on a held
  lock, or finished):
  \<^item> \<open>AtOuterGet\<close>: \<open>lock = self._album_locks.get(album_id)\<close> and the test \<open>lock is None\<close>;
  \<^item> \<open>AtGuard\<close>: \<open>with threading.Lock():\<close> creates a new lock and acquires it;
  \<^item> \<open>AtInnerGet g\<close>: the second \<open>get\<close> and test; when a lock is found the guard \<open>g\<close> is released;
  \<^item> \<open>AtCreate g\<close>: \<open>lock = threading.Lock()\<close>;
  \<^item> \<open>AtStore g l\<close>: \<open>self._album_locks[album_id] = lock\<close>, then the guard is released;
  \<^item> \<open>AtAcquire l\<close>: \<open>with lock:\<close> acquires \<open>l\<close> when it is free;
  \<^item> \<open>Fetching l\<close>: the fetch ends and \<open>l\<close> is released.
\<close>

definition step :: "nat \<Rightarrow> lock_state \<Rightarrow> lock_state option" where
  "step i s =
     (if i \<ge> length (threads s) then None
      else
        let aid = t_album (threads s ! i) in
        case t_pc (threads s ! i) of
          AtOuterGet \<Rightarrow>
            (case album_locks s aid of
               None \<Rightarrow> Some (set_pc i AtGuard s)
             | Some l \<Rightarrow> Some (set_pc i (AtAcquire l) s))
        | AtGuard \<Rightarrow>
            Some (set_pc i (AtInnerGet (next_lock s))
                    (s\<lparr>held := next_lock s # held s, next_lock := Suc (next_lock s)\<rparr>))
        | AtInnerGet g \<Rightarrow>
            (case album_locks s aid of
               None \<Rightarrow> Some (set_pc i (AtCreate g) s)
             | Some l \<Rightarrow> Some (set_pc i (AtAcquire l) (s\<lparr>held := removeAll g (held s)\<rparr>)))
        | AtCreate g \<Rightarrow>
            Some (set_pc i (AtStore g (next_lock s)) (s\<lparr>next_lock := Suc (next_lock s)\<rparr>))
        | AtStore g l \<Rightarrow>
            Some (set_pc i (AtAcquire l)
                    (s\<lparr>album_locks := (album_locks s)(aid \<mapsto> l),
                       held := removeAll g (held s)\<rparr>))
        | AtAcquire l \<Rightarrow>
            (if l \<in> set (held s) then None
             else Some (set_pc i (Fetching l) (s\<lparr>held := l # held s\<rparr>)))
        | Fetching l \<Rightarrow> Some (set_pc i Released (s\<lparr>held := removeAll l (held s)\<rparr>))
        | Released \<Rightarrow> None)"

text \<open>A schedule names the thread that moves at each step.\<close>

fun run_schedule :: "nat list \<Rightarrow> lock_state \<Rightarrow> lock_state option" where
  "run_schedule [] s = Some s"
| "run_schedule (i # sched) s =
     (case step i s of None \<Rightarrow> None | Some s' \<Rightarrow> run_schedule sched s')"

fun is_fetching :: "pc \<Rightarrow> bool" where
  "is_fetching (Fetching _) = True"
| "is_fetching _ = False"

text \<open>The number of fetch invocations for an album id that are active in a state.\<close>

definition active_fetches :: "string \<Rightarrow> lock_state \<Rightarrow> nat" where
  "active_fetches aid s =
     length (filter (\<lambda>t. t_album t = aid \<and> is_fetching (t_pc t)) (threads s))"

text \<open>The process before any album was referenced, with one thread per task body.\<close>

definition start_threads :: "string list \<Rightarrow> lock_state" where
  "start_threads aids =
     \<lparr> threads = map (\<lambda>a. \<lparr> t_album = a, t_pc = AtOuterGet \<rparr>) aids,
        album_locks = Map.empty, held = [], next_lock = 0 \<rparr>"

section \<open>Concrete inputs\<close>

definition lib0 :: lib where
  "lib0 = \<lparr> sha256_hex = (\<lambda>s. s), json_dumps = (\<lambda>j. []), cache_dir_path = ''/data/cache'',
            work_dir_path = ''/data/work'', default_proxy = None,
            resolve_path = (\<lambda>p. p) \<rparr>"

definition req_zip :: TaskRequest where
  "req_zip = \<lparr> album_ids = [IdStr ''123''], output_format = zip, quality = None,
               encrypt = False, password = None, compression = Some 6, cache = True,
               proxy = None, option_file = None \<rparr>"

definition req_pdf_encrypt :: TaskRequest where
  "req_pdf_encrypt = req_zip\<lparr> output_format := pdf, encrypt := True \<rparr>"

text \<open>A fetch that finds nothing, on an empty download directory.\<close>

definition ext_no_images :: ext where
  "ext_no_images =
     \<lparr> fetch = (\<lambda>_. \<lparr> events = [], raised = False, fallback_error = None \<rparr>),
        walk = [], path_exists = (\<lambda>_. True), img2pdf_error = (\<lambda>_. None),
        ts_name = ''20240101_000000'' \<rparr>"

text \<open>A fetch that reports the album's metadata and saves one page.\<close>

definition page1 :: image_info where
  "page1 = \<lparr> i_album_id = Some ''123'', i_image_id = Some ''1'', i_page = Some 1,
             i_path = ''/data/cache/work/a/00001.jpg'', i_filename = Some ''00001.jpg'' \<rparr>"

definition ext_one_page :: ext where
  "ext_one_page =
     \<lparr> fetch = (\<lambda>_. \<lparr> events = [AlbumMeta \<lparr> m_album_id = Some ''123'', m_title = None \<rparr>,
                                   ImageEvent before page1, ImageEvent after page1],
                         raised = False, fallback_error = None \<rparr>),
        walk = [], path_exists = (\<lambda>_. True), img2pdf_error = (\<lambda>_. None),
        ts_name = ''20240101_000000'' \<rparr>"

text \<open>The same request written in two ways: ids in another order, defaults given or omitted.\<close>

definition raw_a :: raw_request where
  "raw_a = \<lparr> r_album_ids = Given (RawList [IdInt 2, IdStr ''1'']), r_output_format = Omitted,
             r_quality = Omitted, r_encrypt = Given False, r_password = Omitted,
             r_compression = Given (Some 6), r_cache = Omitted, r_proxy = Omitted,
             r_option_file = Omitted \<rparr>"

definition raw_b :: raw_request where
  "raw_b = \<lparr> r_album_ids = Given (RawList [IdStr ''1'', IdInt 2]), r_output_format = Given zip,
             r_quality = Given None, r_encrypt = Omitted, r_password = Omitted,
             r_compression = Omitted, r_cache = Given True, r_proxy = Omitted,
             r_option_file = Omitted \<rparr>"

definition req_a :: TaskRequest where
  "req_a = req_zip\<lparr> album_ids := [IdInt 2, IdStr ''1''] \<rparr>"

definition req_b :: TaskRequest where
  "req_b = req_zip\<lparr> album_ids := [IdStr ''1'', IdInt 2] \<rparr>"

text \<open>A process whose cache directory holds the artifact of \<open>req_zip\<close>.\<close>

definition manager_cached :: manager where
  "manager_cached = init_manager\<lparr> cache_dir := [computeKey lib0 req_zip @ ''.zip''] \<rparr>"

text \<open>Every task id registered in the dedup table has a stored state.\<close>

definition registered_have_records :: "manager \<Rightarrow> bool" where
  "registered_have_records s = (\<forall>k t. dedup s k = Some t \<longrightarrow> tasks s t \<noteq> None)"

text \<open>A process in which \<open>req_zip\<close> was submitted and its task body has started.\<close>

definition manager_running :: manager where
  "manager_running = exec lib0 [Submit ''t1'' 0 req_zip, RunBegin 1 ''t1''] init_manager"

text \<open>A task body that starts and fails in the fetch.\<close>

definition ops_fail :: "op list" where
  "ops_fail = [RunBegin 1 ''t1'', RunEnd 2 ''t1'' (Inl ''fetch failed'') None]"

text \<open>What a successful packaging run of \<open>req_zip\<close> returns.\<close>

definition result0 :: "DownloadResult \<times> artifact" where
  "result0 = (\<lparr> res_album_ids = [''123''],
                res_artifact_path = ''/data/work/t1/JM_123_20240101_000000.zip'',
                res_suffix = ''zip'', res_metadata = [] \<rparr>,
              ZipArchive [''album_123/00001_00001.jpg''] None ZIP_DEFLATED)"

text \<open>A request whose id list is empty.\<close>

definition raw_empty :: raw_request where
  "raw_empty = raw_b\<lparr> r_album_ids := Given (RawList []) \<rparr>"

definition req_empty :: TaskRequest where
  "req_empty = req_zip\<lparr> album_ids := [] \<rparr>"

section \<open>Properties of the cache key\<close>

lemma with_default_same_or_default:
  "same_or_default d x y \<Longrightarrow> with_default d x = with_default d y"
  by (auto simp: same_or_default_def with_default_def)

lemma sort_str_ids_mset:
  assumes "mset xs = mset ys"
  shows "sort (map str_id xs) = sort (map str_id ys)"
proof -
  have "mset (map str_id xs) = mset (map str_id ys)"
    using assms by (metis mset_map)
  then have "mset (sort (map str_id ys)) = mset (map str_id xs)"
    by simp
  then show ?thesis
    by (rule properties_for_sort) simp
qed

lemma sorted_ids_up_to_order:
  assumes "same_ids_up_to_order (Given v) (Given w)"
  shows "sort (map str_id (coerce_ids v)) = sort (map str_id (coerce_ids w))"
proof (cases "\<exists>xs ys. v = RawList xs \<and> w = RawList ys")
  case True
  then obtain xs ys where vw: "v = RawList xs" "w = RawList ys" by blast
  with assms have "mset xs = mset ys" by (simp add: same_ids_up_to_order_def)
  then have "sort (map str_id xs) = sort (map str_id ys)" by (rule sort_str_ids_mset)
  then show ?thesis using vw by simp
next
  case False
  with assms have "v = w"
    by (cases v; cases w) (simp_all add: same_ids_up_to_order_def)
  then show ?thesis by simp
qed

lemma payload_up_to_order_or_defaults:
  assumes d: "differ_only_in_order_or_defaults r r'"
    and R: "TaskRequest_init r = Inr R" and R': "TaskRequest_init r' = Inr R'"
  shows "cache_payload R = cache_payload R'"
proof -
  from R obtain v where v: "r_album_ids r = Given v"
    by (cases "r_album_ids r") (simp_all add: TaskRequest_init_def)
  from R' obtain w where w: "r_album_ids r' = Given w"
    by (cases "r_album_ids r'") (simp_all add: TaskRequest_init_def)
  from d v w have ids: "sort (map str_id (coerce_ids v)) = sort (map str_id (coerce_ids w))"
    by (simp add: differ_only_in_order_or_defaults_def sorted_ids_up_to_order)
  from R v have a: "album_ids R = coerce_ids v"
    "output_format R = with_default zip (r_output_format r)"
    "quality R = with_default None (r_quality r)"
    "encrypt R = with_default False (r_encrypt r)"
    "password R = with_default None (r_password r)"
    "compression R = with_default (Some 6) (r_compression r)"
    "proxy R = with_default None (r_proxy r)"
    "option_file R = with_default None (r_option_file r)"
    by (auto simp: TaskRequest_init_def split: if_splits)
  from R' w have b: "album_ids R' = coerce_ids w"
    "output_format R' = with_default zip (r_output_format r')"
    "quality R' = with_default None (r_quality r')"
    "encrypt R' = with_default False (r_encrypt r')"
    "password R' = with_default None (r_password r')"
    "compression R' = with_default (Some 6) (r_compression r')"
    "proxy R' = with_default None (r_proxy r')"
    "option_file R' = with_default None (r_option_file r')"
    by (auto simp: TaskRequest_init_def split: if_splits)
  from d have c: "with_default zip (r_output_format r) = with_default zip (r_output_format r')"
    "with_default None (r_quality r) = with_default None (r_quality r')"
    "with_default False (r_encrypt r) = with_default False (r_encrypt r')"
    "with_default None (r_password r) = with_default None (r_password r')"
    "with_default (Some 6) (r_compression r) = with_default (Some 6) (r_compression r')"
    "with_default None (r_proxy r) = with_default None (r_proxy r')"
    "with_default None (r_option_file r) = with_default None (r_option_file r')"
    by (simp_all add: differ_only_in_order_or_defaults_def with_default_same_or_default)
  show ?thesis
    unfolding cache_payload_def a b using ids c by simp
qed

text \<open>
  C5. \<open>computeKey\<close> is a function of the request alone, and two requests that differ only in
  the ordering of their resource ids or in omitted-versus-explicit-default field values get
  the same key, whatever the digest and the serialiser compute.
\<close>

theorem computeKey_order_and_defaults:
  assumes "differ_only_in_order_or_defaults r r'"
    and "TaskRequest_init r = Inr R" and "TaskRequest_init r' = Inr R'"
  shows "computeKey L R = computeKey L R'"
  using payload_up_to_order_or_defaults [OF assms] by (simp add: computeKey_def)

theorem computeKey_order_and_defaults_witness:
  "differ_only_in_order_or_defaults raw_a raw_b
   \<and> TaskRequest_init raw_a = Inr req_a \<and> TaskRequest_init raw_b = Inr req_b
   \<and> album_ids req_a \<noteq> album_ids req_b
   \<and> computeKey lib0 req_a = computeKey lib0 req_b"
proof -
  have d: "differ_only_in_order_or_defaults raw_a raw_b"
    by (simp add: differ_only_in_order_or_defaults_def raw_a_def raw_b_def
        same_ids_up_to_order_def same_or_default_def)
  have a: "TaskRequest_init raw_a = Inr req_a"
    by (simp add: TaskRequest_init_def raw_a_def req_a_def req_zip_def with_default_def in_bounds_def)
  have b: "TaskRequest_init raw_b = Inr req_b"
    by (simp add: TaskRequest_init_def raw_b_def req_b_def req_zip_def with_default_def in_bounds_def)
  have n: "album_ids req_a \<noteq> album_ids req_b"
    by (simp add: req_a_def req_b_def)
  show ?thesis using d a b n computeKey_order_and_defaults [OF d a b, of lib0] by simp
qed

section \<open>Properties of submission\<close>

lemma task_state_cases:
  "task_state now tid s = (st, s') \<Longrightarrow>
     (tasks s tid = Some st \<and> s' = s) \<or>
     (tasks s tid = None \<and> s' = s\<lparr>tasks := (tasks s)(tid \<mapsto> st)\<rparr> \<and> progress st = 0 \<and> status st = queued
        \<and> artifact_path st = None)"
  by (auto simp: task_state_def get_task_state_def set_task_state_def Let_def split: option.splits)

lemma task_state_frame:
  assumes "task_state now tid s = (st, s')"
  shows "dedup s' = dedup s" "scheduled s' = scheduled s" "cache_dir s' = cache_dir s"
    "tasks s' tid = Some st" "t \<noteq> tid \<Longrightarrow> tasks s' t = tasks s t"
  using task_state_cases [OF assms] by auto

lemma task_state_keeps: "task_state now tid s = (st, s') \<Longrightarrow> tasks s t \<noteq> None \<Longrightarrow> tasks s' t \<noteq> None"
  using task_state_cases [of now tid s st s'] by auto

lemma cached_artifact_frame:
  "cache_dir s' = cache_dir s \<Longrightarrow> cached_artifact L k s' = cached_artifact L k s"
  by (simp add: cached_artifact_def)

text \<open>
  C1. When the request allows cache reuse and the artifact store holds an entry for its key,
  \<open>submit\<close> returns state \<open>completed\<close> with \<open>duplicate\<close> set; the record of the returned task
  has status \<open>completed\<close>, progress 1 and the cached entry's path; nothing is scheduled
  (fetches and lock acquisitions happen only in scheduled task bodies) and the store is
  untouched.
\<close>

theorem submit_cache_hit:
  assumes "cache R" and "cached_artifact L (computeKey L R) s = Some e"
  shows "resp_status (fst (submit L u now R s)) = completed
       \<and> duplicate (fst (submit L u now R s))
       \<and> (\<exists>st. tasks (snd (submit L u now R s)) (resp_task_id (fst (submit L u now R s))) = Some st
               \<and> status st = completed \<and> progress st = 1 \<and> artifact_path st = Some (entry_path e))
       \<and> scheduled (snd (submit L u now R s)) = scheduled s
       \<and> cache_dir (snd (submit L u now R s)) = cache_dir s"
proof -
  let ?k = "cache_key L (cache_payload R)"
  let ?tid = "or_str (dedup s ?k) u"
  let ?s1 = "s\<lparr>dedup := (dedup s)(?k \<mapsto> ?tid)\<rparr>"
  obtain st s2 where ts: "task_state now ?tid ?s1 = (st, s2)" by (cases "task_state now ?tid ?s1")
  from assms have e: "cached_artifact L ?k s = Some e" by (simp add: computeKey_def)
  have sub: "submit L u now R s =
      (\<lparr> resp_task_id = ?tid, resp_status = completed, duplicate = True \<rparr>,
       set_task_state ?tid (st\<lparr> status := completed, progress := 1, updated_at := now,
                            artifact_path := Some (entry_path e) \<rparr>) s2)"
    using assms(1) e ts by (simp add: submit_def Let_def)
  from task_state_frame [OF ts] have "scheduled s2 = scheduled s" "cache_dir s2 = cache_dir s"
    by simp_all
  then show ?thesis unfolding sub by (simp add: set_task_state_def)
qed

theorem submit_cache_hit_witness:
  "cache req_zip
   \<and> cached_artifact lib0 (computeKey lib0 req_zip) manager_cached
       = Some \<lparr> entry_key = computeKey lib0 req_zip,
                entry_path = ''/data/cache/'' @ computeKey lib0 req_zip @ ''.zip'' \<rparr>
   \<and> resp_status (fst (submit lib0 ''t1'' 0 req_zip manager_cached)) = completed
   \<and> duplicate (fst (submit lib0 ''t1'' 0 req_zip manager_cached))
   \<and> scheduled (snd (submit lib0 ''t1'' 0 req_zip manager_cached)) = []"
proof -
  have c: "cache req_zip" by (simp add: req_zip_def)
  have e: "cached_artifact lib0 (computeKey lib0 req_zip) manager_cached
       = Some \<lparr> entry_key = computeKey lib0 req_zip,
                entry_path = ''/data/cache/'' @ computeKey lib0 req_zip @ ''.zip'' \<rparr>"
    by (simp add: cached_artifact_def manager_cached_def init_manager_def startswith_def lib0_def)
  have s: "scheduled manager_cached = []" by (simp add: manager_cached_def init_manager_def)
  show ?thesis using c e s submit_cache_hit [OF c e, of "''t1''" 0] by simp
qed

section \<open>What the operations leave alone\<close>

lemma set_task_state_frame:
  "dedup (set_task_state tid st s) = dedup s"
  "scheduled (set_task_state tid st s) = scheduled s"
  "cache_dir (set_task_state tid st s) = cache_dir s"
  "tasks (set_task_state tid st s) = (tasks s)(tid \<mapsto> st)"
  by (simp_all add: set_task_state_def)

lemma task_state_snd:
  "dedup (snd (task_state now tid s)) = dedup s"
  "scheduled (snd (task_state now tid s)) = scheduled s"
  "cache_dir (snd (task_state now tid s)) = cache_dir s"
  "tasks (snd (task_state now tid s)) = (tasks s)(tid \<mapsto> fst (task_state now tid s))"
  by (auto simp: task_state_def get_task_state_def set_task_state_def Let_def split: option.splits)

lemma put_artifact_snd:
  "dedup (snd (put_artifact L k src sfx s)) = dedup s"
  "tasks (snd (put_artifact L k src sfx s)) = tasks s"
  "scheduled (snd (put_artifact L k src sfx s)) = scheduled s"
  by (simp_all add: put_artifact_def Let_def)

lemmas frame = set_task_state_frame task_state_snd put_artifact_snd

lemma submit_dedup_kept:
  assumes "dedup s k = Some t" and "t \<noteq> []"
  shows "dedup (snd (submit L u now R s)) k = Some t"
  using assms
  by (auto simp: submit_def Let_def split_beta or_str_def frame split: option.splits)

lemma run_task_begin_dedup: "dedup (run_task_begin now tid s) = dedup s"
  by (simp add: run_task_begin_def split_beta frame)

lemma progress_cb_dedup: "dedup (progress_cb now tid p msg s) = dedup s"
  by (simp add: progress_cb_def split_beta frame)

lemma run_task_end_dedup: "dedup (run_task_end L now tid outcome pe s) = dedup s"
  by (simp add: run_task_end_def Let_def split_beta frame split: sum.splits option.splits)

lemma get_status_dedup: "dedup (snd (get_status tid s)) = dedup s"
  by (simp add: get_status_def Let_def frame split: option.splits)

lemma exec_op_dedup_kept:
  "dedup s k = Some t \<Longrightarrow> t \<noteq> [] \<Longrightarrow> dedup (exec_op L x s) k = Some t"
  by (cases x)
     (simp_all add: submit_dedup_kept run_task_begin_dedup progress_cb_dedup
        run_task_end_dedup get_status_dedup)

lemma exec_dedup_kept:
  "dedup s k = Some t \<Longrightarrow> t \<noteq> [] \<Longrightarrow> dedup (exec L ops s) k = Some t"
  unfolding exec_def
  by (induction ops arbitrary: s) (simp_all add: exec_op_dedup_kept)

lemma submit_record_kept:
  "tasks s t \<noteq> None \<Longrightarrow> tasks (snd (submit L u now R s)) t \<noteq> None"
  by (auto simp: submit_def Let_def split_beta or_str_def frame split: option.splits)

lemma run_task_begin_record_kept:
  "tasks s t \<noteq> None \<Longrightarrow> tasks (run_task_begin now tid s) t \<noteq> None"
  by (simp add: run_task_begin_def split_beta frame)

lemma progress_cb_record_kept:
  "tasks s t \<noteq> None \<Longrightarrow> tasks (progress_cb now tid p msg s) t \<noteq> None"
  by (simp add: progress_cb_def split_beta frame)

lemma run_task_end_record_kept:
  "tasks s t \<noteq> None \<Longrightarrow> tasks (run_task_end L now tid outcome pe s) t \<noteq> None"
  by (simp add: run_task_end_def Let_def split_beta frame split: sum.splits option.splits)

lemma get_status_record_kept:
  "tasks s t \<noteq> None \<Longrightarrow> tasks (snd (get_status tid s)) t \<noteq> None"
  by (simp add: get_status_def Let_def frame get_task_state_def split: option.splits)

lemma exec_op_record_kept:
  "tasks s t \<noteq> None \<Longrightarrow> tasks (exec_op L x s) t \<noteq> None"
  by (cases x)
     (simp_all add: submit_record_kept run_task_begin_record_kept progress_cb_record_kept
        run_task_end_record_kept get_status_record_kept)

lemma exec_record_kept:
  "tasks s t \<noteq> None \<Longrightarrow> tasks (exec L ops s) t \<noteq> None"
  unfolding exec_def
proof (induction ops arbitrary: s)
  case Nil
  then show ?case by simp
next
  case (Cons x ops)
  from Cons.prems have "tasks (exec_op L x s) t \<noteq> None" by (rule exec_op_record_kept)
  then have "tasks (fold (exec_op L) ops (exec_op L x s)) t \<noteq> None" by (rule Cons.IH)
  then show ?case by simp
qed

lemma submit_on_registered:
  assumes "dedup s (computeKey L R) = Some t"
    and "\<not> cache R \<or> cached_artifact L (computeKey L R) s = None"
  shows "submit L u now R s =
           (\<lparr> resp_task_id = t, resp_status = status (fst (task_state now t s)),
               duplicate = True \<rparr>, snd (task_state now t s))"
  using assms by (auto simp: submit_def computeKey_def Let_def split_beta)

lemma task_state_existing: "tasks s t = Some st \<Longrightarrow> task_state now t s = (st, s)"
  by (simp add: task_state_def get_task_state_def)

lemma submit_registered_have_records:
  "registered_have_records s \<Longrightarrow> registered_have_records (snd (submit L u now R s))"
  unfolding registered_have_records_def
  by (auto simp: submit_def Let_def split_beta or_str_def frame split: option.splits if_splits)

lemma registered_have_records_frame:
  assumes "registered_have_records s" and "dedup s' = dedup s"
    and "\<And>t. tasks s t \<noteq> None \<Longrightarrow> tasks s' t \<noteq> None"
  shows "registered_have_records s'"
  using assms unfolding registered_have_records_def by metis

lemma exec_op_registered_have_records:
  assumes "registered_have_records s"
  shows "registered_have_records (exec_op L x s)"
proof (cases x)
  case (Submit u now R)
  then show ?thesis using assms by (simp add: submit_registered_have_records)
next
  case (RunBegin now tid)
  show ?thesis unfolding RunBegin exec_op.simps
    by (rule registered_have_records_frame [OF assms run_task_begin_dedup])
       (rule run_task_begin_record_kept)
next
  case (ProgressCb now tid p msg)
  show ?thesis unfolding ProgressCb exec_op.simps
    by (rule registered_have_records_frame [OF assms progress_cb_dedup])
       (rule progress_cb_record_kept)
next
  case (RunEnd now tid outcome pe)
  show ?thesis unfolding RunEnd exec_op.simps
    by (rule registered_have_records_frame [OF assms run_task_end_dedup])
       (rule run_task_end_record_kept)
next
  case (GetStatus tid)
  show ?thesis unfolding GetStatus exec_op.simps
    by (rule registered_have_records_frame [OF assms get_status_dedup])
       (rule get_status_record_kept)
qed

lemma exec_registered_have_records:
  "registered_have_records s \<Longrightarrow> registered_have_records (exec L ops s)"
  unfolding exec_def
proof (induction ops arbitrary: s)
  case Nil
  then show ?case by simp
next
  case (Cons x ops)
  from Cons.prems have "registered_have_records (exec_op L x s)"
    by (rule exec_op_registered_have_records)
  then have "registered_have_records (fold (exec_op L) ops (exec_op L x s))" by (rule Cons.IH)
  then show ?case by simp
qed

lemmas eval_manager = exec_def submit_def run_task_begin_def run_task_end_def progress_cb_def
  task_state_def get_task_state_def set_task_state_def cached_artifact_def init_manager_def
  computeKey_def or_str_def Let_def

text \<open>
  C2. In every state the process reaches from a start with an empty dedup table, a submission
  whose key is registered in the dedup table and that no cached artifact short-circuits
  returns the registered task id with \<open>duplicate\<close> set and leaves the whole state as it was:
  no task record is created and nothing is scheduled. (The registered id is the one the
  first submission for the key returned: only \<open>submit\<close> writes the table.)
\<close>

theorem submit_registered_key:
  assumes "dedup s0 = Map.empty" and "s = exec L ops s0"
    and "dedup s (computeKey L R) = Some t"
    and "\<not> cache R \<or> cached_artifact L (computeKey L R) s = None"
  shows "resp_task_id (fst (submit L u now R s)) = t
       \<and> duplicate (fst (submit L u now R s))
       \<and> snd (submit L u now R s) = s"
proof -
  have "registered_have_records s0"
    using assms(1) by (simp add: registered_have_records_def)
  then have "registered_have_records s"
    unfolding assms(2) by (rule exec_registered_have_records)
  with assms(3) obtain st where st: "tasks s t = Some st"
    by (auto simp: registered_have_records_def)
  show ?thesis
    by (simp add: submit_on_registered [OF assms(3,4)] task_state_existing [OF st])
qed

theorem submit_registered_key_witness:
  "dedup init_manager = Map.empty
   \<and> manager_running = exec lib0 [Submit ''t1'' 0 req_zip, RunBegin 1 ''t1''] init_manager
   \<and> dedup manager_running (computeKey lib0 req_zip) = Some ''t1''
   \<and> cached_artifact lib0 (computeKey lib0 req_zip) manager_running = None
   \<and> resp_task_id (fst (submit lib0 ''t2'' 2 req_zip manager_running)) = ''t1''
   \<and> duplicate (fst (submit lib0 ''t2'' 2 req_zip manager_running))
   \<and> snd (submit lib0 ''t2'' 2 req_zip manager_running) = manager_running"
proof -
  have a: "dedup init_manager = Map.empty" by (simp add: init_manager_def)
  have b: "manager_running = exec lib0 [Submit ''t1'' 0 req_zip, RunBegin 1 ''t1''] init_manager"
    by (simp add: manager_running_def)
  have c: "dedup manager_running (computeKey lib0 req_zip) = Some ''t1''"
    by (simp add: manager_running_def eval_manager)
  have d: "cached_artifact lib0 (computeKey lib0 req_zip) manager_running = None"
    by (simp add: manager_running_def eval_manager)
  from d have d': "\<not> cache req_zip \<or> cached_artifact lib0 (computeKey lib0 req_zip) manager_running = None"
    by simp
  show ?thesis
    using a b c d submit_registered_key [OF a b c d', of "''t2''" 2] by simp
qed

text \<open>
  C10. No operation removes an entry of the dedup table: after any run of operations a key
  still maps to the task id it mapped to, and every later submission with that key that does
  not hit the artifact cache returns that id with \<open>duplicate\<close> set and with the status the
  task then has, schedules nothing and leaves the table as it is; in particular a failed
  task is returned and no retry is started.
\<close>

theorem dedup_entry_never_removed:
  assumes "dedup s k = Some t" and "t \<noteq> []" and "computeKey L R = k"
    and "\<not> cache R \<or> cached_artifact L k (exec L ops s) = None"
  shows "dedup (exec L ops s) k = Some t
       \<and> resp_task_id (fst (submit L u now R (exec L ops s))) = t
       \<and> duplicate (fst (submit L u now R (exec L ops s)))
       \<and> (\<forall>st. tasks (exec L ops s) t = Some st
             \<longrightarrow> resp_status (fst (submit L u now R (exec L ops s))) = status st)
       \<and> scheduled (snd (submit L u now R (exec L ops s))) = scheduled (exec L ops s)
       \<and> dedup (snd (submit L u now R (exec L ops s))) = dedup (exec L ops s)"
proof -
  let ?s = "exec L ops s"
  have d: "dedup ?s (computeKey L R) = Some t"
    using assms(1,2,3) by (simp add: exec_dedup_kept)
  have c: "\<not> cache R \<or> cached_artifact L (computeKey L R) ?s = None"
    using assms(3,4) by simp
  have sub: "submit L u now R ?s =
           (\<lparr> resp_task_id = t, resp_status = status (fst (task_state now t ?s)),
               duplicate = True \<rparr>, snd (task_state now t ?s))"
    by (rule submit_on_registered [OF d c])
  have sch: "scheduled (snd (submit L u now R ?s)) = scheduled ?s"
    unfolding sub by (simp add: task_state_snd)
  have ded: "dedup (snd (submit L u now R ?s)) = dedup ?s"
    unfolding sub by (simp add: task_state_snd)
  have rest: "dedup ?s k = Some t
       \<and> resp_task_id (fst (submit L u now R ?s)) = t
       \<and> duplicate (fst (submit L u now R ?s))
       \<and> (\<forall>st. tasks ?s t = Some st
             \<longrightarrow> resp_status (fst (submit L u now R ?s)) = status st)"
    using d assms(3) by (auto simp: sub task_state_existing)
  from rest sch ded show ?thesis by simp
qed

theorem dedup_entry_never_removed_witness:
  "dedup (snd (submit lib0 ''t1'' 0 req_zip init_manager)) (computeKey lib0 req_zip) = Some ''t1''
   \<and> ''t1'' \<noteq> []
   \<and> cached_artifact lib0 (computeKey lib0 req_zip)
        (exec lib0 ops_fail (snd (submit lib0 ''t1'' 0 req_zip init_manager))) = None
   \<and> resp_task_id (fst (submit lib0 ''t2'' 3 req_zip
        (exec lib0 ops_fail (snd (submit lib0 ''t1'' 0 req_zip init_manager))))) = ''t1''
   \<and> duplicate (fst (submit lib0 ''t2'' 3 req_zip
        (exec lib0 ops_fail (snd (submit lib0 ''t1'' 0 req_zip init_manager)))))
   \<and> resp_status (fst (submit lib0 ''t2'' 3 req_zip
        (exec lib0 ops_fail (snd (submit lib0 ''t1'' 0 req_zip init_manager))))) = failed
   \<and> scheduled (snd (submit lib0 ''t2'' 3 req_zip
        (exec lib0 ops_fail (snd (submit lib0 ''t1'' 0 req_zip init_manager)))))
       = [(''t1'', req_zip)]"
proof -
  let ?s = "snd (submit lib0 ''t1'' 0 req_zip init_manager)"
  have a: "dedup ?s (computeKey lib0 req_zip) = Some ''t1''"
    by (simp add: eval_manager)
  have b: "''t1'' \<noteq> []" by simp
  have c: "cached_artifact lib0 (computeKey lib0 req_zip) (exec lib0 ops_fail ?s) = None"
    by (simp add: ops_fail_def eval_manager)
  from c have c': "\<not> cache req_zip
      \<or> cached_artifact lib0 (computeKey lib0 req_zip) (exec lib0 ops_fail ?s) = None"
    by simp
  have f: "\<exists>st. tasks (exec lib0 ops_fail ?s) ''t1'' = Some st \<and> status st = failed"
    by (simp add: ops_fail_def eval_manager)
  have g: "scheduled (exec lib0 ops_fail ?s) = [(''t1'', req_zip)]"
    by (simp add: ops_fail_def eval_manager)
  show ?thesis
    using a b c f g dedup_entry_never_removed [OF a b refl c', of "''t2''" 3] by auto
qed

section \<open>Progress\<close>

lemma progress_cb_range:
  "\<exists>st. tasks (progress_cb now tid p msg s) tid = Some st
        \<and> 0 \<le> progress st \<and> progress st \<le> 99 / 100
        \<and> (\<forall>st0. tasks s tid = Some st0 \<longrightarrow> status st = status st0)"
  by (auto simp: progress_cb_def Let_def split_beta frame task_state_def get_task_state_def
      split: option.splits)

lemma submit_progress_one:
  assumes "tasks (snd (submit L u now R s)) t = Some st'" and "progress st' = 1"
    and "\<forall>st. tasks s t = Some st \<longrightarrow> progress st \<noteq> 1"
  shows "status st' = completed"
  using assms
  by (auto simp: submit_def Let_def split_beta frame task_state_def get_task_state_def
      set_task_state_def split: option.splits if_splits)

lemma run_task_begin_progress_one:
  assumes "tasks (run_task_begin now tid s) t = Some st'" and "progress st' = 1"
    and "\<forall>st. tasks s t = Some st \<longrightarrow> progress st \<noteq> 1"
  shows "status st' = completed"
  using assms
  by (auto simp: run_task_begin_def Let_def split_beta frame task_state_def get_task_state_def
      set_task_state_def split: option.splits if_splits)

lemma progress_cb_progress_one:
  assumes "tasks (progress_cb now tid p msg s) t = Some st'" and "progress st' = 1"
    and "\<forall>st. tasks s t = Some st \<longrightarrow> progress st \<noteq> 1"
  shows "status st' = completed"
proof (cases "t = tid")
  case True
  with assms(1,2) progress_cb_range [of now tid p msg s] show ?thesis by auto
next
  case False
  with assms show ?thesis
    by (auto simp: progress_cb_def split_beta frame)
qed

lemma run_task_end_progress_one:
  assumes "tasks (run_task_end L now tid outcome pe s) t = Some st'" and "progress st' = 1"
    and "\<forall>st. tasks s t = Some st \<longrightarrow> progress st \<noteq> 1"
  shows "status st' = completed"
  using assms
  by (auto simp: run_task_end_def Let_def split_beta frame task_state_def get_task_state_def
      set_task_state_def split: option.splits if_splits sum.splits)

lemma get_status_progress_one:
  assumes "tasks (snd (get_status tid s)) t = Some st'" and "progress st' = 1"
    and "\<forall>st. tasks s t = Some st \<longrightarrow> progress st \<noteq> 1"
  shows "status st' = completed"
  using assms
  by (auto simp: get_status_def Let_def frame get_task_state_def
      split: option.splits if_splits)

text \<open>
  C6. The progress callback clamps its argument: the value it writes lies in \<open>[0, 0.99]\<close>
  and it leaves the status alone, so every value written while the task is \<open>running\<close> is in
  that range. And whenever an operation makes a record's progress 1 that was not 1 before,
  the record's status after the operation is \<open>completed\<close>: 1 is written only together with
  the transition to \<open>completed\<close>.
\<close>

theorem progress_range_and_completion:
  "(\<exists>st. tasks (progress_cb now tid p msg s) tid = Some st
        \<and> 0 \<le> progress st \<and> progress st \<le> 99 / 100
        \<and> (\<forall>st0. tasks s tid = Some st0 \<longrightarrow> status st = status st0))
   \<and> (\<forall>st'. tasks (exec_op L x s) t = Some st' \<and> progress st' = 1
            \<and> (\<forall>st. tasks s t = Some st \<longrightarrow> progress st \<noteq> 1)
          \<longrightarrow> status st' = completed)"
proof (intro conjI allI impI)
  show "\<exists>st. tasks (progress_cb now tid p msg s) tid = Some st
        \<and> 0 \<le> progress st \<and> progress st \<le> 99 / 100
        \<and> (\<forall>st0. tasks s tid = Some st0 \<longrightarrow> status st = status st0)"
    by (rule progress_cb_range)
next
  fix st'
  assume a: "tasks (exec_op L x s) t = Some st' \<and> progress st' = 1
            \<and> (\<forall>st. tasks s t = Some st \<longrightarrow> progress st \<noteq> 1)"
  show "status st' = completed"
  proof (cases x)
    case (Submit u n R)
    with a show ?thesis using submit_progress_one [of L u n R s t st'] by simp
  next
    case (RunBegin n i)
    with a show ?thesis using run_task_begin_progress_one [of n i s t st'] by simp
  next
    case (ProgressCb n i q m)
    with a show ?thesis using progress_cb_progress_one [of n i q m s t st'] by simp
  next
    case (RunEnd n i outcome pe)
    with a show ?thesis using run_task_end_progress_one [of L n i outcome pe s t st'] by simp
  next
    case (GetStatus i)
    with a show ?thesis using get_status_progress_one [of i s t st'] by simp
  qed
qed

theorem progress_range_and_completion_witness:
  "(\<exists>st'. tasks (exec_op lib0 (RunEnd 2 ''t1'' (Inr result0) None) manager_running) ''t1'' = Some st'
          \<and> progress st' = 1 \<and> status st' = completed)
   \<and> (\<exists>st. tasks manager_running ''t1'' = Some st \<and> progress st = 0)
   \<and> (\<exists>st. tasks (progress_cb 2 ''t1'' 5 ''late'' manager_running) ''t1'' = Some st
          \<and> 0 \<le> progress st \<and> progress st \<le> 99 / 100 \<and> status st = running)"
proof -
  have a: "\<exists>st'. tasks (exec_op lib0 (RunEnd 2 ''t1'' (Inr result0) None) manager_running) ''t1''
               = Some st' \<and> progress st' = 1"
    by (simp add: manager_running_def result0_def eval_manager put_artifact_def)
  have b: "\<forall>st. tasks manager_running ''t1'' = Some st \<longrightarrow> progress st \<noteq> 1"
    by (simp add: manager_running_def eval_manager)
  have c: "\<exists>st0. tasks manager_running ''t1'' = Some st0 \<and> status st0 = running
             \<and> progress st0 = 0"
    by (simp add: manager_running_def eval_manager)
  show ?thesis
    using a b c
      progress_range_and_completion [of 2 "''t1''" 5 "''late''" manager_running lib0
        "RunEnd 2 ''t1'' (Inr result0) None" "''t1''"]
    by auto
qed

lemmas eval_package = download_and_package_def DownloadParams_of_def lib0_def req_zip_def
  req_pdf_encrypt_def ext_one_page_def ext_no_images_def page1_def on_album_meta_def
  on_image_event_def or_str_def or_int_def str_opt_def truthy_def collect_images_def
  make_zip_def make_pdf_def item_key_def path_name_def Let_def

text \<open>
  C7. The progress values reported while a task runs are not non-decreasing: for one album
  whose fetch reports its metadata and one page, the callback receives 0.45 when the
  download starts, then 0.1 for the metadata and 0.2 for the page, before 0.5, 0.75 and 0.95.
\<close>

theorem progress_not_monotone:
  "map fst (fst (download_and_package ext_one_page ''/data/work/t1''
                   (DownloadParams_of lib0 req_zip)))
     = [45 / 100, 1 / 10, 2 / 10, 2 / 10, 1 / 2, 75 / 100, 95 / 100]
   \<and> \<not> sorted (map fst (fst (download_and_package ext_one_page ''/data/work/t1''
                   (DownloadParams_of lib0 req_zip))))"
  by (simp add: eval_package)

section \<open>Packaging\<close>

text \<open>
  C4. For a request with \<open>encrypt\<close> set and no password, packaging generates no password:
  \<open>download_and_package\<close> passes the missing password on, the document is written
  unencrypted (it opens without a password), the task completes, and the only password in
  the task's state, that of the stored request, is absent.
\<close>

theorem encrypt_without_password_unencrypted:
  "encrypt req_pdf_encrypt \<and> password req_pdf_encrypt = None
   \<and> snd (download_and_package ext_one_page ''/data/work/t1''
            (DownloadParams_of lib0 req_pdf_encrypt))
       = Inr (\<lparr> res_album_ids = [''123''],
                 res_artifact_path = ''/data/work/t1/JM_123_20240101_000000.pdf'',
                 res_suffix = ''pdf'',
                 res_metadata = [\<lparr> m_album_id = Some ''123'', m_title = None \<rparr>] \<rparr>,
              PdfDocument [''/data/cache/work/a/00001.jpg''] None)
   \<and> opens_with (PdfDocument [''/data/cache/work/a/00001.jpg''] None) = None
   \<and> (\<exists>st. tasks (run_task lib0 ext_one_page 1 ''t1'' req_pdf_encrypt None
                     (snd (submit lib0 ''t1'' 0 req_pdf_encrypt init_manager))) ''t1'' = Some st
            \<and> status st = completed
            \<and> map_option password (request st) = Some None)"
proof -
  have p: "download_and_package ext_one_page ''/data/work/t1''
             (DownloadParams_of lib0 req_pdf_encrypt)
     = ([(45 / 100, ''download 123''), (1 / 10, ''meta 123''), (2 / 10, ''image before 1''),
         (2 / 10, ''image after 1''), (1 / 2, ''collect images''), (75 / 100, ''pdf''),
         (95 / 100, ''finalize'')],
        Inr (\<lparr> res_album_ids = [''123''],
                 res_artifact_path = ''/data/work/t1/JM_123_20240101_000000.pdf'',
                 res_suffix = ''pdf'',
                 res_metadata = [\<lparr> m_album_id = Some ''123'', m_title = None \<rparr>] \<rparr>,
              PdfDocument [''/data/cache/work/a/00001.jpg''] None))"
    by (simp add: eval_package)
  have w: "work_dir_path lib0 @ ''/'' @ ''t1'' = ''/data/work/t1''" by (simp add: lib0_def)
  have r: "\<exists>st. tasks (run_task lib0 ext_one_page 1 ''t1'' req_pdf_encrypt None
                     (snd (submit lib0 ''t1'' 0 req_pdf_encrypt init_manager))) ''t1'' = Some st
            \<and> status st = completed
            \<and> map_option password (request st) = Some None"
    unfolding run_task_def w p
    by (simp add: eval_manager put_artifact_def req_pdf_encrypt_def req_zip_def)
  have e: "encrypt req_pdf_encrypt \<and> password req_pdf_encrypt = None"
    by (simp add: req_pdf_encrypt_def req_zip_def)
  show ?thesis using p r e by simp
qed

text \<open>
  C8. When neither the callbacks nor the directory scan yield an image, the archive branch
  of packaging raises nothing: it writes an archive with no entries, and the task ends in
  state \<open>completed\<close> with no error.
\<close>

theorem empty_image_set_packaged:
  "snd (download_and_package ext_no_images ''/data/work/t1'' (DownloadParams_of lib0 req_zip))
     = Inr (\<lparr> res_album_ids = [''123''],
               res_artifact_path = ''/data/work/t1/JM_123_20240101_000000.zip'',
               res_suffix = ''zip'', res_metadata = [] \<rparr>,
            ZipArchive [] None ZIP_DEFLATED)
   \<and> (\<exists>st. tasks (run_task lib0 ext_no_images 1 ''t1'' req_zip None
                     (snd (submit lib0 ''t1'' 0 req_zip init_manager))) ''t1'' = Some st
            \<and> status st = completed \<and> error st = None)"
proof -
  have p: "download_and_package ext_no_images ''/data/work/t1'' (DownloadParams_of lib0 req_zip)
     = ([(45 / 100, ''download 123''), (1 / 2, ''collect images''), (75 / 100, ''zip''),
         (95 / 100, ''finalize'')],
        Inr (\<lparr> res_album_ids = [''123''],
               res_artifact_path = ''/data/work/t1/JM_123_20240101_000000.zip'',
               res_suffix = ''zip'', res_metadata = [] \<rparr>,
            ZipArchive [] None ZIP_DEFLATED))"
    by (simp add: eval_package)
  have w: "work_dir_path lib0 @ ''/'' @ ''t1'' = ''/data/work/t1''" by (simp add: lib0_def)
  show ?thesis
    unfolding run_task_def w p by (simp add: eval_manager put_artifact_def)
qed

section \<open>Validation\<close>

text \<open>
  C9, as claimed, fails: a request with an empty id list is constructed without a
  validation error, and submitting it to a fresh process creates a queued task record and
  schedules its body.
\<close>

theorem empty_ids_counterexample:
  "TaskRequest_init raw_empty = Inr req_empty \<and> album_ids req_empty = []
   \<and> fst (submit lib0 ''t1'' 0 req_empty init_manager)
       = \<lparr> resp_task_id = ''t1'', resp_status = queued, duplicate = False \<rparr>
   \<and> tasks (snd (submit lib0 ''t1'' 0 req_empty init_manager)) ''t1'' \<noteq> None
   \<and> scheduled (snd (submit lib0 ''t1'' 0 req_empty init_manager)) = [(''t1'', req_empty)]"
  by (simp add: TaskRequest_init_def raw_empty_def raw_b_def req_empty_def req_zip_def
      with_default_def in_bounds_def eval_manager)

lemma submit_new_task:
  assumes "dedup s (computeKey L R) = None"
    and "\<not> cache R \<or> cached_artifact L (computeKey L R) s = None"
  shows "fst (submit L u now R s) = \<lparr> resp_task_id = u, resp_status = queued, duplicate = False \<rparr>"
    and "dedup (snd (submit L u now R s)) = (dedup s)(computeKey L R \<mapsto> u)"
    and "scheduled (snd (submit L u now R s)) = scheduled s @ [(u, R)]"
    and "\<exists>st. tasks (snd (submit L u now R s)) u = Some st \<and> request st = Some R
            \<and> st_cache_key st = Some (computeKey L R)"
  using assms
  by (auto simp: submit_def computeKey_def Let_def split_beta frame)

text \<open>
  C9, amended. A request whose id list is empty or null passes validation when its quality
  and compression are within their bounds, and \<open>submit\<close> treats it like any other request:
  with no registered task and no usable cached artifact for its key, it returns a new queued
  task, not a duplicate, stores its record, registers it in the dedup table and schedules
  its body.
\<close>

theorem empty_ids_accepted:
  assumes "r_album_ids r = Given (RawList []) \<or> r_album_ids r = Given RawNull"
    and "in_bounds 1 100 (with_default None (r_quality r))"
    and "in_bounds 0 9 (with_default (Some 6) (r_compression r))"
  shows "\<exists>R. TaskRequest_init r = Inr R \<and> album_ids R = []
          \<and> (\<forall>L u now s. dedup s (computeKey L R) = None
                 \<and> (\<not> cache R \<or> cached_artifact L (computeKey L R) s = None)
               \<longrightarrow> fst (submit L u now R s)
                     = \<lparr> resp_task_id = u, resp_status = queued, duplicate = False \<rparr>
                 \<and> tasks (snd (submit L u now R s)) u \<noteq> None
                 \<and> dedup (snd (submit L u now R s)) (computeKey L R) = Some u
                 \<and> scheduled (snd (submit L u now R s)) = scheduled s @ [(u, R)])"
proof -
  from assms obtain R where R: "TaskRequest_init r = Inr R" "album_ids R = []"
    by (auto simp: TaskRequest_init_def)
  have S: "\<forall>L u now s. dedup s (computeKey L R) = None
                 \<and> (\<not> cache R \<or> cached_artifact L (computeKey L R) s = None)
               \<longrightarrow> fst (submit L u now R s)
                     = \<lparr> resp_task_id = u, resp_status = queued, duplicate = False \<rparr>
                 \<and> tasks (snd (submit L u now R s)) u \<noteq> None
                 \<and> dedup (snd (submit L u now R s)) (computeKey L R) = Some u
                 \<and> scheduled (snd (submit L u now R s)) = scheduled s @ [(u, R)]"
  proof (intro allI impI)
    fix L u now s
    assume a: "dedup s (computeKey L R) = None
                 \<and> (\<not> cache R \<or> cached_artifact L (computeKey L R) s = None)"
    then have d: "dedup s (computeKey L R) = None"
      and c: "\<not> cache R \<or> cached_artifact L (computeKey L R) s = None" by simp_all
    from submit_new_task [OF d c, of u now]
    show "fst (submit L u now R s)
                     = \<lparr> resp_task_id = u, resp_status = queued, duplicate = False \<rparr>
                 \<and> tasks (snd (submit L u now R s)) u \<noteq> None
                 \<and> dedup (snd (submit L u now R s)) (computeKey L R) = Some u
                 \<and> scheduled (snd (submit L u now R s)) = scheduled s @ [(u, R)]"
      by auto
  qed
  from R S show ?thesis by blast
qed

theorem empty_ids_accepted_witness:
  "r_album_ids raw_empty = Given (RawList [])
   \<and> in_bounds 1 100 (with_default None (r_quality raw_empty))
   \<and> in_bounds 0 9 (with_default (Some 6) (r_compression raw_empty))
   \<and> (\<exists>R. TaskRequest_init raw_empty = Inr R \<and> album_ids R = []
          \<and> fst (submit lib0 ''t1'' 0 R init_manager)
               = \<lparr> resp_task_id = ''t1'', resp_status = queued, duplicate = False \<rparr>
          \<and> scheduled (snd (submit lib0 ''t1'' 0 R init_manager)) = [(''t1'', R)])"
proof -
  have a: "r_album_ids raw_empty = Given (RawList [])" by (simp add: raw_empty_def)
  have b: "in_bounds 1 100 (with_default None (r_quality raw_empty))"
    by (simp add: raw_empty_def raw_b_def with_default_def in_bounds_def)
  have c: "in_bounds 0 9 (with_default (Some 6) (r_compression raw_empty))"
    by (simp add: raw_empty_def raw_b_def with_default_def in_bounds_def)
  from a have a': "r_album_ids raw_empty = Given (RawList []) \<or> r_album_ids raw_empty = Given RawNull"
    by simp
  have d: "\<And>R. dedup init_manager (computeKey lib0 R) = None
      \<and> (\<not> cache R \<or> cached_artifact lib0 (computeKey lib0 R) init_manager = None)"
    by (simp add: init_manager_def cached_artifact_def)
  have e: "scheduled init_manager = []" by (simp add: init_manager_def)
  from empty_ids_accepted [OF a' b c] obtain R where
    R: "TaskRequest_init raw_empty = Inr R" "album_ids R = []"
    and S: "\<forall>L u now s. dedup s (computeKey L R) = None
                 \<and> (\<not> cache R \<or> cached_artifact L (computeKey L R) s = None)
               \<longrightarrow> fst (submit L u now R s)
                     = \<lparr> resp_task_id = u, resp_status = queued, duplicate = False \<rparr>
                 \<and> tasks (snd (submit L u now R s)) u \<noteq> None
                 \<and> dedup (snd (submit L u now R s)) (computeKey L R) = Some u
                 \<and> scheduled (snd (submit L u now R s)) = scheduled s @ [(u, R)]"
    by blast
  from S d [of R] have "fst (submit lib0 ''t1'' 0 R init_manager)
               = \<lparr> resp_task_id = ''t1'', resp_status = queued, duplicate = False \<rparr>
          \<and> scheduled (snd (submit lib0 ''t1'' 0 R init_manager)) = scheduled init_manager @ [(''t1'', R)]"
    by blast
  with R e a b c show ?thesis by auto
qed

section \<open>The per-album locks\<close>

text \<open>
  C3. Two fetch invocations for one album id can be active at the same time. Two task bodies
  reference album 123 before any lock for it exists; each takes its own guard lock, finds no
  lock for the album, creates one and stores it, the second store replacing the first; each
  then acquires the lock it created, and both fetch.
\<close>

theorem lock_race_two_fetches:
  "map_option (active_fetches ''123'')
     (run_schedule [0, 0, 0, 1, 1, 1, 0, 0, 1, 1, 0, 1] (start_threads [''123'', ''123'']))
   = Some 2"
  by (simp add: step_def start_threads_def set_pc_def active_fetches_def)

end
